theory Spec2Isabelle
  imports Complex_Main
begin

section \<open>The NPV calculator of NPV.py\<close>

text \<open>
  The repository holds one function, \<^verbatim>\<open>get_npv\<close>, a straight pipeline of numpy
  array operations. The embedding follows it line by line:
  \<^item> a one-dimensional numpy array is a \<open>real list\<close>;
  \<^item> the 15 keyword parameters are a record, the three annotated \<^verbatim>\<open>int\<close> as \<open>int\<close> and
    the twelve annotated \<^verbatim>\<open>float\<close> as \<open>real\<close>;
  \<^item> the exceptions numpy raises on the way (\<^verbatim>\<open>ValueError\<close> for a negative dimension
    in \<^verbatim>\<open>np.zeros\<close>, \<^verbatim>\<open>ValueError\<close> for operands that cannot be broadcast together)
    are the \<open>Inl\<close> branch of the result;
  \<^item> a division by zero in the discounting step does not raise in numpy, it gives
    \<^verbatim>\<open>inf\<close> or \<^verbatim>\<open>nan\<close> with a warning; the model keeps that outcome apart as
    \<open>NonFinite\<close>.

  Arithmetic is exact: a binary64 value is read as the real number it stands for, and
  rounding is not modelled. Shapes, exceptions and the order of operations do not depend
  on that. Values do, in three ways the statements below have to respect:
  \<^item> binary64 overflows to \<^verbatim>\<open>inf\<close> and underflows to 0, so a power of \<open>1 + rate\<close> can
    leave the finite non-zero numbers where the real power does not;
  \<^item> the year index is an \<^verbatim>\<open>np.int64\<close>, so a rate passed as a Python integer is raised
    to its power in wrapping 64-bit integer arithmetic (\<open>dcfs_int_rate\<close> below models that
    path for the discount rate);
  \<^item> rounding absorbs small differences, so two results that differ in exact arithmetic
    can be the same float.
  \<open>sensible_ranges\<close> bounds the parameters so that neither overflow, underflow nor integer
  wrap-around can occur; the general statements about the result are made under it, and
  none of them asserts a strict inequality between two results.
\<close>

subsection \<open>numpy primitives\<close>

datatype error =
    NegativeDimensions       \<comment> \<open>ValueError: negative dimensions are not allowed\<close>
  | ShapeMismatch nat nat    \<comment> \<open>ValueError: operands could not be broadcast together\<close>

datatype npfloat = Finite real | NonFinite

text \<open>\<^verbatim>\<open>np.arange(0, n)\<close> for an integer \<open>n\<close>: empty when \<open>n \<le> 0\<close>.\<close>

definition np_arange :: "int \<Rightarrow> nat list" where
  "np_arange n = [0..<nat n]"

text \<open>\<^verbatim>\<open>np.zeros(n)\<close> and \<^verbatim>\<open>np.ones(n)\<close> for an integer \<open>n\<close>.\<close>

definition np_zeros :: "int \<Rightarrow> error + real list" where
  "np_zeros n = (if n < 0 then Inl NegativeDimensions else Inr (replicate (nat n) 0))"

definition np_ones :: "nat \<Rightarrow> real list" where
  "np_ones n = replicate n 1"

text \<open>
  An elementwise binary operation on two one-dimensional arrays. Equal shapes combine
  index by index; an operand of shape \<open>(1,)\<close> is stretched to the other's shape; any
  other pair of shapes raises.
\<close>

definition broadcast :: "(real \<Rightarrow> real \<Rightarrow> real) \<Rightarrow> real list \<Rightarrow> real list \<Rightarrow> error + real list" where
  "broadcast f xs ys =
     (if length xs = length ys then Inr (map2 f xs ys)
      else if length xs = 1 then Inr (map (f (hd xs)) ys)
      else if length ys = 1 then Inr (map (\<lambda>x. f x (hd ys)) xs)
      else Inl (ShapeMismatch (length xs) (length ys)))"

text \<open>
  Division of two numpy floats: a zero divisor gives \<^verbatim>\<open>inf\<close>, \<^verbatim>\<open>-inf\<close> or \<^verbatim>\<open>nan\<close>,
  never an exception. A sum with one such summand is again not finite.
\<close>

definition np_div :: "real \<Rightarrow> real \<Rightarrow> npfloat" where
  "np_div x y = (if y = 0 then NonFinite else Finite (x / y))"

fun np_add :: "npfloat \<Rightarrow> npfloat \<Rightarrow> npfloat" where
  "np_add (Finite a) (Finite b) = Finite (a + b)"
| "np_add _ _ = NonFinite"

definition np_sum :: "npfloat list \<Rightarrow> npfloat" where
  "np_sum xs = foldr np_add xs (Finite 0)"

subsection \<open>Parameters\<close>

record params =
  us_population :: real
  us_population_growth_rate :: real
  n_years :: int
  get_flu_rate :: real
  max_penetration :: real
  patent_exclusive_years :: int
  penetration_upon_patent_loss :: real
  inflection_year :: real
  hill_coefficient :: real
  lead_time_years :: int
  rd_cost_scaler :: real
  clindev_sga :: real
  cost_of_revenue :: real
  cost_per_unit :: real
  discount_rate :: real

definition default_params :: params where
  "default_params = \<lparr>
     us_population = 335.5,
     us_population_growth_rate = 0.007,
     n_years = 30,
     get_flu_rate = 0.14,
     max_penetration = 0.5,
     patent_exclusive_years = 19,
     penetration_upon_patent_loss = 0.05,
     inflection_year = 1.5,
     hill_coefficient = 7,
     lead_time_years = 6,
     rd_cost_scaler = 1,
     clindev_sga = 0.5,
     cost_of_revenue = 0.49,
     cost_per_unit = 45,
     discount_rate = 0.35 \<rparr>"

subsection \<open>The pipeline of get_npv, one definition per assignment\<close>

text \<open>Market addressable.\<close>

definition population :: "params \<Rightarrow> real list" where
  "population P =
     map (\<lambda>x. us_population P * x)
       (map (\<lambda>i. (1 + us_population_growth_rate P) ^ i) (np_arange (n_years P)))"

definition n_flu :: "params \<Rightarrow> real list" where
  "n_flu P = map (\<lambda>x. get_flu_rate P * x) (population P)"

text \<open>Market penetration rate.\<close>

definition pre_approval :: "params \<Rightarrow> error + real list" where
  "pre_approval P = np_zeros (lead_time_years P)"

definition patent_effective :: "params \<Rightarrow> real list" where
  "patent_effective P =
     map (\<lambda>i. max_penetration P /
               (1 + exp (- 1 * hill_coefficient P * (real i - inflection_year P))))
       (np_arange (patent_exclusive_years P))"

definition post_patent :: "params \<Rightarrow> real list" where
  "post_patent P = map (\<lambda>x. penetration_upon_patent_loss P * x) (np_ones 5)"

definition market_penetration :: "params \<Rightarrow> error + real list" where
  "market_penetration P =
     (case pre_approval P of
        Inl e \<Rightarrow> Inl e
      | Inr z \<Rightarrow> Inr (z @ patent_effective P @ post_patent P))"

text \<open>Number of patients per year.\<close>

definition n_patients_treated :: "params \<Rightarrow> error + real list" where
  "n_patients_treated P =
     (case market_penetration P of
        Inl e \<Rightarrow> Inl e
      | Inr mp \<Rightarrow> broadcast (*) mp (n_flu P))"

text \<open>Non-revenue costs.\<close>

definition rd_costs_baseline :: "real list" where
  "rd_costs_baseline = [3.515, 3.789, 8.2, 10.8, 23.796, 2.2]"

definition rd_costs :: "params \<Rightarrow> real list" where
  "rd_costs P = map (\<lambda>x. rd_cost_scaler P * x) rd_costs_baseline"

definition dev_costs :: "params \<Rightarrow> real list" where
  "dev_costs P = map (\<lambda>x. clindev_sga P + x) (rd_costs P)"

definition nr_costs :: "params \<Rightarrow> real list" where
  "nr_costs P = dev_costs P @ replicate 24 0"

text \<open>Revenue, revenue-associated costs, total costs, net income.\<close>

definition revenue :: "params \<Rightarrow> error + real list" where
  "revenue P =
     (case n_patients_treated P of
        Inl e \<Rightarrow> Inl e
      | Inr pt \<Rightarrow> Inr (map (\<lambda>x. x * cost_per_unit P) pt))"

definition r_costs :: "params \<Rightarrow> error + real list" where
  "r_costs P =
     (case revenue P of
        Inl e \<Rightarrow> Inl e
      | Inr rv \<Rightarrow> Inr (map (\<lambda>x. x * cost_of_revenue P) rv))"

definition costs :: "params \<Rightarrow> error + real list" where
  "costs P =
     (case r_costs P of
        Inl e \<Rightarrow> Inl e
      | Inr rc \<Rightarrow> broadcast (+) (nr_costs P) rc)"

definition net_income :: "params \<Rightarrow> error + real list" where
  "net_income P =
     (case revenue P of
        Inl e \<Rightarrow> Inl e
      | Inr rv \<Rightarrow>
          (case costs P of
             Inl e \<Rightarrow> Inl e
           | Inr cs \<Rightarrow> broadcast (-) rv cs))"

text \<open>
  Discounted cash flows: Python's \<^verbatim>\<open>zip\<close> stops at the shorter of the net-income array
  and the year index.
\<close>

definition dcfs :: "params \<Rightarrow> error + npfloat list" where
  "dcfs P =
     (case net_income P of
        Inl e \<Rightarrow> Inl e
      | Inr ni \<Rightarrow>
          Inr (map (\<lambda>(x, t). np_div x ((1 + discount_rate P) ^ t))
                 (zip ni (np_arange (n_years P)))))"

definition get_npv :: "params \<Rightarrow> error + npfloat" where
  "get_npv P =
     (case dcfs P of
        Inl e \<Rightarrow> Inl e
      | Inr ds \<Rightarrow> Inr (np_sum ds))"

subsection \<open>Shapes under which the pipeline runs through\<close>

text \<open>
  The penetration array has \<open>lead_time_years + max(patent_exclusive_years, 0) + 5\<close>
  entries, the non-revenue costs have 30 and the flu incidence has \<open>max(n_years, 0)\<close>.
  \<open>shapes_ok\<close> collects the parameter sets on which every elementwise operation finds
  shapes it can combine; \<open>shapes_30\<close> is the case where all three arrays have 30
  entries and nothing is stretched.
\<close>

definition shapes_ok :: "params \<Rightarrow> bool" where
  "shapes_ok P \<longleftrightarrow>
     0 \<le> lead_time_years P \<and>
     lead_time_years P + max (patent_exclusive_years P) 0 + 5 = 30 \<and>
     (n_years P = 30 \<or> n_years P = 1)"

definition shapes_30 :: "params \<Rightarrow> bool" where
  "shapes_30 P \<longleftrightarrow>
     0 \<le> lead_time_years P \<and> 0 \<le> patent_exclusive_years P \<and>
     lead_time_years P + patent_exclusive_years P + 5 = 30 \<and> n_years P = 30"

text \<open>
  Ranges in which binary64 follows exact arithmetic up to rounding. With magnitudes up to
  \<open>10^6\<close>, a flu rate and a growth rate of at most 1 in absolute value and
  \<open>1/2 \<le> 1 + discount_rate \<le> 4\<close>, no product, sum or quotient of the pipeline exceeds
  \<open>10^46\<close>, no discount factor falls below \<open>2^-29\<close>, and a rate, population or flu rate
  passed as a Python integer stays below \<open>2^63\<close> in every integer power and product
  (\<open>4^29 = 2^58\<close>, \<open>10^6 * 2^29 < 2^63\<close>). Only \<^verbatim>\<open>np.exp\<close> can still overflow or underflow,
  which rounds a penetration entry to 0 or to \<open>max_penetration\<close>.
\<close>

definition sensible_ranges :: "params \<Rightarrow> bool" where
  "sensible_ranges P \<longleftrightarrow>
     \<bar>us_population P\<bar> \<le> 10 ^ 6 \<and>
     \<bar>us_population_growth_rate P\<bar> \<le> 1 \<and>
     \<bar>get_flu_rate P\<bar> \<le> 1 \<and>
     \<bar>max_penetration P\<bar> \<le> 10 ^ 6 \<and>
     \<bar>penetration_upon_patent_loss P\<bar> \<le> 10 ^ 6 \<and>
     \<bar>inflection_year P\<bar> \<le> 10 ^ 6 \<and>
     \<bar>hill_coefficient P\<bar> \<le> 10 ^ 6 \<and>
     \<bar>rd_cost_scaler P\<bar> \<le> 10 ^ 6 \<and>
     \<bar>clindev_sga P\<bar> \<le> 10 ^ 6 \<and>
     \<bar>cost_of_revenue P\<bar> \<le> 10 ^ 6 \<and>
     \<bar>cost_per_unit P\<bar> \<le> 10 ^ 6 \<and>
     - (1 / 2) \<le> discount_rate P \<and> discount_rate P \<le> 3"

text \<open>
  The value of \<open>market_penetration\<close> when \<^verbatim>\<open>np.zeros\<close> does not raise, and the net
  income of year \<open>i\<close> read off the arrays of the source.
\<close>

definition penetration_curve :: "params \<Rightarrow> real list" where
  "penetration_curve P =
     replicate (nat (lead_time_years P)) 0 @ patent_effective P @ post_patent P"

definition net_income_at :: "params \<Rightarrow> nat \<Rightarrow> real" where
  "net_income_at P i =
     penetration_curve P ! i * n_flu P ! i * cost_per_unit P
     - (nr_costs P ! i
        + penetration_curve P ! i * n_flu P ! i * cost_per_unit P * cost_of_revenue P)"

text \<open>
  Present value of the non-revenue costs and of the scaled R&D costs alone, discounted
  over the same year index as the cash flows.
\<close>

definition nr_costs_pv :: "params \<Rightarrow> real" where
  "nr_costs_pv P =
     (\<Sum>(x, t)\<leftarrow>zip (nr_costs P) (np_arange (n_years P)). x / (1 + discount_rate P) ^ t)"

definition rd_costs_pv :: "params \<Rightarrow> real" where
  "rd_costs_pv P =
     (\<Sum>(x, t)\<leftarrow>zip (rd_costs P) (np_arange (n_years P)). x / (1 + discount_rate P) ^ t)"

text \<open>
  The discounted patient volume on 30-entry arrays: what the price multiplies.
\<close>

definition patients_pv :: "params \<Rightarrow> real" where
  "patients_pv P =
     (\<Sum>i\<leftarrow>[0..<30]. penetration_curve P ! i * n_flu P ! i / (1 + discount_rate P) ^ i)"

text \<open>
  Comparing two runs: the difference of the two results when both calls return a finite
  float, and the strict order derived from it.
\<close>

definition npv_diff :: "params \<Rightarrow> params \<Rightarrow> real option" where
  "npv_diff P Q =
     (case (get_npv P, get_npv Q) of
        (Inr (Finite a), Inr (Finite b)) \<Rightarrow> Some (a - b)
      | _ \<Rightarrow> None)"



subsection \<open>The discounting step with an integer discount rate\<close>

text \<open>
  \<^verbatim>\<open>x / ((1 + discount_rate) ** t)\<close> with \<^verbatim>\<open>discount_rate\<close> a Python integer \<open>k\<close>:
  \<open>1 + k\<close> is a Python integer, \<open>t\<close> is an \<^verbatim>\<open>np.int64\<close>, and the power is taken by numpy
  in 64-bit two's complement arithmetic, which wraps around (\<open>int64\<close>; for
  \<open>1 + k\<close> itself within 64 bits). The division then converts the integer to a float.
  Nothing else of the pipeline reads the discount rate.
\<close>

definition int64 :: "int \<Rightarrow> int" where
  "int64 n = (n + 2 ^ 63) mod 2 ^ 64 - 2 ^ 63"

definition dcfs_int_rate :: "params \<Rightarrow> int \<Rightarrow> error + npfloat list" where
  "dcfs_int_rate P k =
     (case net_income P of
        Inl e \<Rightarrow> Inl e
      | Inr ni \<Rightarrow>
          Inr (map (\<lambda>(x, t). np_div x (real_of_int (int64 ((1 + k) ^ t))))
                 (zip ni (np_arange (n_years P)))))"

definition get_npv_int_rate :: "params \<Rightarrow> int \<Rightarrow> error + npfloat" where
  "get_npv_int_rate P k =
     (case dcfs_int_rate P k of
        Inl e \<Rightarrow> Inl e
      | Inr ds \<Rightarrow> Inr (np_sum ds))"

subsection \<open>The formula of the specification\<close>

text \<open>
  Written from the specification's words: the three-regime penetration curve, the cost
  schedule, the revenue of year \<open>i\<close> and the discounted sum.
\<close>

definition spec_market_penetration :: "params \<Rightarrow> real list" where
  "spec_market_penetration P =
     replicate (nat (lead_time_years P)) 0
     @ map (\<lambda>j. max_penetration P /
                 (1 + exp (- hill_coefficient P * (real j - inflection_year P))))
         [0..<nat (patent_exclusive_years P)]
     @ replicate 5 (penetration_upon_patent_loss P)"

definition spec_nr_cost :: "params \<Rightarrow> real list" where
  "spec_nr_cost P =
     map (\<lambda>b. rd_cost_scaler P * b + clindev_sga P)
       [3.515, 3.789, 8.2, 10.8, 23.796, 2.2]
     @ replicate 24 0"

definition spec_revenue :: "params \<Rightarrow> nat \<Rightarrow> real" where
  "spec_revenue P i =
     spec_market_penetration P ! i * get_flu_rate P * us_population P
     * (1 + us_population_growth_rate P) ^ i * cost_per_unit P"

definition spec_npv :: "params \<Rightarrow> real" where
  "spec_npv P =
     (\<Sum>i\<leftarrow>[0..<nat (n_years P)].
        (spec_revenue P i * (1 - cost_of_revenue P) - spec_nr_cost P ! i)
        / (1 + discount_rate P) ^ i)"

section \<open>Shapes and lengths\<close>


lemma length_n_flu: "length (n_flu P) = nat (n_years P)"
  by (simp add: n_flu_def population_def np_arange_def)

lemma length_nr_costs: "length (nr_costs P) = 30"
  by (simp add: nr_costs_def dev_costs_def rd_costs_def rd_costs_baseline_def)

lemma length_patent_effective:
  "length (patent_effective P) = nat (patent_exclusive_years P)"
  by (simp add: patent_effective_def np_arange_def)

lemma length_post_patent: "length (post_patent P) = 5"
  by (simp add: post_patent_def np_ones_def)

lemma market_penetration_neg:
  "lead_time_years P < 0 \<Longrightarrow> market_penetration P = Inl NegativeDimensions"
  by (simp add: market_penetration_def pre_approval_def np_zeros_def)

lemma market_penetration_nonneg:
  "0 \<le> lead_time_years P \<Longrightarrow>
   market_penetration P =
     Inr (replicate (nat (lead_time_years P)) 0 @ patent_effective P @ post_patent P)"
  by (simp add: market_penetration_def pre_approval_def np_zeros_def)

lemma length_market_penetration:
  "market_penetration P = Inr mp \<Longrightarrow>
   length mp = nat (lead_time_years P) + nat (patent_exclusive_years P) + 5"
  by (cases "lead_time_years P < 0")
     (auto simp: market_penetration_neg market_penetration_nonneg
                 length_patent_effective length_post_patent)

lemma broadcast_isl:
  "isl (broadcast f xs ys) \<longleftrightarrow>
   length xs \<noteq> length ys \<and> length xs \<noteq> 1 \<and> length ys \<noteq> 1"
  by (simp add: broadcast_def)

lemma broadcast_length:
  "broadcast f xs ys = Inr zs \<Longrightarrow>
   length zs = (if length xs = 1 then length ys else length xs)"
  by (auto simp: broadcast_def split: if_splits)

lemma broadcast_same:
  "length xs = length ys \<Longrightarrow> broadcast f xs ys = Inr (map2 f xs ys)"
  by (simp add: broadcast_def)

lemma n_patients_treated_isl:
  "isl (n_patients_treated P) \<longleftrightarrow>
     lead_time_years P < 0 \<or>
     (nat (lead_time_years P) + nat (patent_exclusive_years P) + 5 \<noteq> nat (n_years P)
      \<and> nat (n_years P) \<noteq> 1)"
proof (cases "lead_time_years P < 0")
  case True
  then show ?thesis by (simp add: n_patients_treated_def market_penetration_neg)
next
  case False
  then show ?thesis
    by (auto simp: n_patients_treated_def market_penetration_nonneg broadcast_isl
        length_n_flu length_patent_effective length_post_patent)
qed

lemma length_n_patients_treated:
  assumes "n_patients_treated P = Inr pt"
  shows "length pt = nat (lead_time_years P) + nat (patent_exclusive_years P) + 5"
proof -
  from assms obtain mp where mp: "market_penetration P = Inr mp"
    and b: "broadcast (*) mp (n_flu P) = Inr pt"
    by (auto simp: n_patients_treated_def split: sum.splits)
  from length_market_penetration[OF mp] broadcast_length[OF b] show ?thesis
    by simp
qed

lemma revenue_isl: "isl (revenue P) = isl (n_patients_treated P)"
  by (simp add: revenue_def split: sum.splits)

lemma length_revenue:
  "revenue P = Inr rv \<Longrightarrow>
   length rv = nat (lead_time_years P) + nat (patent_exclusive_years P) + 5"
  by (auto simp: revenue_def length_n_patients_treated split: sum.splits)

lemma r_costs_isl: "isl (r_costs P) = isl (n_patients_treated P)"
  by (simp add: r_costs_def revenue_isl[symmetric] split: sum.splits)

lemma length_r_costs:
  "r_costs P = Inr rc \<Longrightarrow>
   length rc = nat (lead_time_years P) + nat (patent_exclusive_years P) + 5"
  by (auto simp: r_costs_def length_revenue split: sum.splits)

lemma costs_isl:
  "isl (costs P) \<longleftrightarrow>
     isl (n_patients_treated P) \<or>
     nat (lead_time_years P) + nat (patent_exclusive_years P) + 5 \<noteq> 30"
proof (cases "r_costs P")
  case (Inl e)
  then show ?thesis using r_costs_isl[of P] by (simp add: costs_def)
next
  case (Inr rc)
  with r_costs_isl[of P] length_r_costs[OF Inr] show ?thesis
    by (simp add: costs_def broadcast_isl length_nr_costs)
qed

lemma length_costs: "costs P = Inr cs \<Longrightarrow> length cs = 30"
  by (auto simp: costs_def length_nr_costs split: sum.splits dest!: broadcast_length)

lemma net_income_isl: "isl (net_income P) = isl (costs P)"
proof (cases "revenue P")
  case (Inl e)
  then show ?thesis using revenue_isl[of P] costs_isl[of P] by (simp add: net_income_def)
next
  case rv: (Inr rv)
  show ?thesis
  proof (cases "costs P")
    case (Inl e)
    then show ?thesis using rv by (simp add: net_income_def)
  next
    case (Inr cs)
    with costs_isl[of P] length_costs[OF Inr] length_revenue[OF rv] rv show ?thesis
      by (simp add: net_income_def broadcast_isl)
  qed
qed

lemma get_npv_isl: "isl (get_npv P) = isl (net_income P)"
  by (simp add: get_npv_def dcfs_def split: sum.splits)


section \<open>Closed form on 30-entry arrays\<close>

lemma map2_upt:
  "length xs = n \<Longrightarrow> length ys = n \<Longrightarrow>
   map2 f xs ys = map (\<lambda>i. f (xs ! i) (ys ! i)) [0..<n]"
  by (rule nth_equalityI) simp_all

lemma map_upt: "length xs = n \<Longrightarrow> map f xs = map (\<lambda>i. f (xs ! i)) [0..<n]"
  by (rule nth_equalityI) simp_all

lemma length_penetration_curve:
  "length (penetration_curve P) =
     nat (lead_time_years P) + nat (patent_exclusive_years P) + 5"
  by (simp add: penetration_curve_def length_patent_effective length_post_patent)

lemma market_penetration_curve:
  "0 \<le> lead_time_years P \<Longrightarrow> market_penetration P = Inr (penetration_curve P)"
  by (simp add: market_penetration_nonneg penetration_curve_def)

lemma shapes_30_lengths:
  assumes "shapes_30 P"
  shows "length (penetration_curve P) = 30" "length (n_flu P) = 30"
  using assms by (auto simp: shapes_30_def length_penetration_curve length_n_flu)

lemma net_income_30:
  assumes "shapes_30 P"
  shows "net_income P = Inr (map (net_income_at P) [0..<30])"
proof -
  let ?mp = "penetration_curve P" and ?fl = "n_flu P" and ?nr = "nr_costs P"
  note len = shapes_30_lengths[OF assms] length_nr_costs[of P]
  from assms have mp: "market_penetration P = Inr ?mp"
    by (simp add: shapes_30_def market_penetration_curve)
  have pt: "n_patients_treated P = Inr (map (\<lambda>i. ?mp ! i * ?fl ! i) [0..<30])"
    by (simp add: n_patients_treated_def mp broadcast_same len map2_upt[where n = 30])
  have rv: "revenue P = Inr (map (\<lambda>i. ?mp ! i * ?fl ! i * cost_per_unit P) [0..<30])"
    by (simp add: revenue_def pt)
  have rc: "r_costs P =
      Inr (map (\<lambda>i. ?mp ! i * ?fl ! i * cost_per_unit P * cost_of_revenue P) [0..<30])"
    by (simp add: r_costs_def rv)
  have cs: "costs P =
      Inr (map (\<lambda>i. ?nr ! i + ?mp ! i * ?fl ! i * cost_per_unit P * cost_of_revenue P)
             [0..<30])"
    by (simp add: costs_def rc broadcast_same len)
       (rule nth_equalityI, simp_all add: len)
  show ?thesis
    by (simp add: net_income_def rv cs broadcast_same)
       (rule nth_equalityI, simp_all add: net_income_at_def)
qed

lemma zip_upt: "length xs = n \<Longrightarrow> zip xs [0..<n] = map (\<lambda>i. (xs ! i, i)) [0..<n]"
  by (rule nth_equalityI) simp_all

lemma dcfs_30:
  assumes "shapes_30 P"
  shows "dcfs P =
     Inr (map (\<lambda>i. np_div (net_income_at P i) ((1 + discount_rate P) ^ i)) [0..<30])"
proof -
  from assms have n: "np_arange (n_years P) = [0..<30]"
    by (simp add: shapes_30_def np_arange_def)
  show ?thesis
    by (simp add: dcfs_def net_income_30[OF assms] n zip_upt[where n = 30])
qed

lemma np_sum_finite:
  "(\<And>i. i \<in> set is \<Longrightarrow> g i \<noteq> 0) \<Longrightarrow>
   np_sum (map (\<lambda>i. np_div (f i) (g i)) is) = Finite (\<Sum>i\<leftarrow>is. f i / g i)"
  by (induction "is") (simp_all add: np_sum_def np_div_def)

lemma np_add_NonFinite [simp]: "np_add x NonFinite = NonFinite"
  by (cases x) simp_all

lemma np_sum_nonfinite: "NonFinite \<in> set xs \<Longrightarrow> np_sum xs = NonFinite"
  by (induction xs) (auto simp: np_sum_def)

lemma get_npv_30:
  assumes "shapes_30 P" and "discount_rate P \<noteq> - 1"
  shows "get_npv P =
     Inr (Finite (\<Sum>i\<leftarrow>[0..<30]. net_income_at P i / (1 + discount_rate P) ^ i))"
proof -
  from assms(2) have "1 + discount_rate P \<noteq> 0" by simp
  then have "\<And>i. (1 + discount_rate P) ^ i \<noteq> 0" by simp
  then show ?thesis
    by (simp add: get_npv_def dcfs_30[OF assms(1)] np_sum_finite)
qed

lemma get_npv_30_nonfinite:
  assumes "shapes_30 P" and "discount_rate P = - 1"
  shows "get_npv P = Inr NonFinite"
proof -
  have "np_div (net_income_at P 1) ((1 + discount_rate P) ^ 1) = NonFinite"
    using assms(2) by (simp add: np_div_def)
  moreover have "(1::nat) \<in> set [0..<30]" by simp
  ultimately have "NonFinite \<in> set (map (\<lambda>i. np_div (net_income_at P i) ((1 + discount_rate P) ^ i)) [0..<30])"
    by (metis (no_types, lifting) image_eqI set_map)
  then show ?thesis
    by (simp add: get_npv_def dcfs_30[OF assms(1)] np_sum_nonfinite)
qed

lemma penetration_curve_spec: "penetration_curve P = spec_market_penetration P"
  by (simp add: penetration_curve_def spec_market_penetration_def patent_effective_def
      post_patent_def np_ones_def np_arange_def)

lemma nr_costs_spec: "nr_costs P = spec_nr_cost P"
  by (simp add: nr_costs_def dev_costs_def rd_costs_def rd_costs_baseline_def
      spec_nr_cost_def add.commute)

lemma n_flu_nth:
  "i < nat (n_years P) \<Longrightarrow>
   n_flu P ! i = get_flu_rate P * (us_population P * (1 + us_population_growth_rate P) ^ i)"
  by (simp add: n_flu_def population_def np_arange_def)

lemma net_income_at_spec:
  "i < nat (n_years P) \<Longrightarrow>
   net_income_at P i =
     spec_revenue P i * (1 - cost_of_revenue P) - spec_nr_cost P ! i"
  by (simp add: net_income_at_def spec_revenue_def penetration_curve_spec nr_costs_spec
      n_flu_nth algebra_simps)

lemma replicate_numeral: "replicate (numeral k) x = x # replicate (pred_numeral k) x"
  by (simp add: numeral_eq_Suc)

lemmas pipeline_defs =
  get_npv_def dcfs_def net_income_def costs_def r_costs_def revenue_def
  n_patients_treated_def market_penetration_def pre_approval_def np_zeros_def
  broadcast_def

section \<open>The result as a formula\<close>

text \<open>
  On 30-entry shapes and within \<open>sensible_ranges\<close>, \<open>get_npv\<close> returns the sum over the
  30 years of \<open>(revenue[i] * (1 - cost_of_revenue) - nr_cost[i]) / (1 + discount_rate)^i\<close>,
  with the revenue, the three-regime penetration curve and the cost schedule of the
  specification.
\<close>

lemma get_npv_formula:
  assumes "0 \<le> lead_time_years P" and "0 \<le> patent_exclusive_years P"
    and "lead_time_years P + patent_exclusive_years P + 5 = n_years P"
    and "n_years P = 30"
    and "sensible_ranges P"
  shows "get_npv P = Inr (Finite (spec_npv P))"
proof -
  from assms(1-4) have s: "shapes_30 P" by (simp add: shapes_30_def)
  from assms(5) have d: "discount_rate P \<noteq> - 1" by (simp add: sensible_ranges_def)
  have "(\<Sum>i\<leftarrow>[0..<30]. net_income_at P i / (1 + discount_rate P) ^ i) = spec_npv P"
    unfolding spec_npv_def assms(4)
    by (rule arg_cong[where f = sum_list], rule map_cong)
       (simp_all add: net_income_at_spec assms(4))
  then show ?thesis by (simp add: get_npv_30[OF s d])
qed

lemma dcfs_int_rate_30:
  assumes "shapes_30 P"
  shows "dcfs_int_rate P k =
     Inr (map (\<lambda>i. np_div (net_income_at P i) (real_of_int (int64 ((1 + k) ^ i)))) [0..<30])"
proof -
  from assms have n: "np_arange (n_years P) = [0..<30]"
    by (simp add: shapes_30_def np_arange_def)
  show ?thesis
    by (simp add: dcfs_int_rate_def net_income_30[OF assms] n zip_upt[where n = 30])
qed

lemma int64_8_22: "int64 ((1 + 7) ^ 22) = 0"
  by (simp add: int64_def)

text \<open>
  Claim C1: for every parameter set with
  \<open>lead_time_years + patent_exclusive_years + 5 = n_years = 30\<close>, \<open>get_npv\<close> returns exactly
  the discounted sum of the specification. The code breaks this when the discount rate
  is passed as an integer. At \<open>discount_rate = 7\<close> and the other defaults the discount
  factor of year 22 is \<open>8^22 = 2^66\<close>, which is 0 in 64-bit integer arithmetic; the
  division by it is not finite and neither is the result. The same call with the float
  7.0 returns the finite sum of the formula.
\<close>

theorem get_npv_int_rate_wraps:
  "get_npv_int_rate default_params 7 = Inr NonFinite \<and>
   get_npv (default_params\<lparr>discount_rate := 7\<rparr>)
     = Inr (Finite (spec_npv (default_params\<lparr>discount_rate := 7\<rparr>)))"
proof
  have s: "shapes_30 default_params" by (simp add: shapes_30_def default_params_def)
  have "np_div (net_income_at default_params 22) (real_of_int (int64 ((1 + 7) ^ 22))) = NonFinite"
    unfolding int64_8_22 by (simp add: np_div_def)
  moreover have "(22::nat) \<in> set [0..<30]" by simp
  ultimately have "NonFinite \<in> set (map (\<lambda>i. np_div (net_income_at default_params i)
      (real_of_int (int64 ((1 + 7) ^ i)))) [0..<30])"
    by (metis (no_types, lifting) image_eqI set_map)
  then show "get_npv_int_rate default_params 7 = Inr NonFinite"
    by (simp add: get_npv_int_rate_def dcfs_int_rate_30[OF s] np_sum_nonfinite)
next
  let ?P = "default_params\<lparr>discount_rate := 7\<rparr>"
  have s: "shapes_30 ?P" by (simp add: shapes_30_def default_params_def)
  have d: "discount_rate ?P \<noteq> - 1" by simp
  have n: "n_years ?P = 30" by (simp add: default_params_def)
  have "(\<Sum>i\<leftarrow>[0..<30]. net_income_at ?P i / (1 + discount_rate ?P) ^ i) = spec_npv ?P"
    unfolding spec_npv_def n
    by (rule arg_cong[where f = sum_list], rule map_cong)
       (simp_all add: net_income_at_spec n)
  then show "get_npv ?P = Inr (Finite (spec_npv ?P))"
    by (simp only: get_npv_30[OF s d])
qed

section \<open>Exceptions\<close>

text \<open>
  Claim C2, as stated, fails: a parameter set with
  \<open>n_years = lead_time_years + patent_exclusive_years + 5 = 31\<close> (lead time 7, the rest
  at the defaults) makes the 31-entry revenue costs meet the 30-entry non-revenue costs,
  and the addition raises.
\<close>

theorem get_npv_31_years_raises:
  "get_npv (default_params\<lparr>n_years := 31, lead_time_years := 7\<rparr>)
     = Inl (ShapeMismatch 30 31)"
  by (simp add: pipeline_defs default_params_def length_n_flu length_patent_effective
      length_post_patent length_nr_costs)

lemma default_sensible: "sensible_ranges default_params"
  by (simp add: sensible_ranges_def default_params_def)

text \<open>
  Claim C3, as stated, fails: with \<open>n_years = 10\<close> and the other parameters at their
  defaults the 30-entry penetration array meets the 10-entry flu incidence, and the
  multiplication raises.
\<close>

theorem get_npv_10_years_raises:
  "get_npv (default_params\<lparr>n_years := 10\<rparr>) = Inl (ShapeMismatch 30 10)"
  by (simp add: pipeline_defs default_params_def length_n_flu length_patent_effective
      length_post_patent length_nr_costs)

text \<open>
  Claim C3, amended. \<open>get_npv\<close> raises exactly on the parameter sets outside
  \<open>shapes_ok\<close>: it returns a float (finite or not) if and only if
  \<open>lead_time_years \<ge> 0\<close>, \<open>lead_time_years + max(patent_exclusive_years, 0) + 5 = 30\<close>
  and \<open>n_years\<close> is 30 or 1.
\<close>

theorem get_npv_raises_iff: "isl (get_npv P) \<longleftrightarrow> \<not> shapes_ok P"
  unfolding get_npv_isl net_income_isl costs_isl n_patients_treated_isl shapes_ok_def
  by (auto simp: max_def)

theorem get_npv_raises_iff_witness:
  "shapes_ok default_params \<and> \<not> isl (get_npv default_params)"
  using get_npv_raises_iff[of default_params]
  by (simp add: shapes_ok_def default_params_def)

section \<open>A one-year horizon\<close>

lemma one_year_n_flu:
  "n_flu (default_params\<lparr>n_years := 1\<rparr>)
     = [get_flu_rate default_params * (us_population default_params * 1)]"
  by (simp add: n_flu_def population_def np_arange_def default_params_def)

lemma one_year_patients:
  "n_patients_treated (default_params\<lparr>n_years := 1\<rparr>)
     = Inr (map (\<lambda>m. m * (get_flu_rate default_params * (us_population default_params * 1)))
              (penetration_curve default_params))"
proof -
  let ?P = "default_params\<lparr>n_years := 1\<rparr>"
  have c: "penetration_curve ?P = penetration_curve default_params"
    by (simp add: penetration_curve_def patent_effective_def post_patent_def)
  have "0 \<le> lead_time_years ?P" by (simp add: default_params_def)
  then have m: "market_penetration ?P = Inr (penetration_curve default_params)"
    unfolding c[symmetric] by (rule market_penetration_curve)
  have l: "length (penetration_curve default_params) = 30"
    by (simp add: length_penetration_curve default_params_def)
  show ?thesis
    by (simp add: n_patients_treated_def m broadcast_def l one_year_n_flu)
qed

text \<open>
  Claim C10. With \<open>n_years = 1\<close> and the other parameters at their defaults \<open>get_npv\<close>
  raises nothing and returns the year-0 net income,
  \<open>-(rd_cost_scaler * 3.515 + clindev_sga)\<close>, which is \<open>-4.015\<close> (up to the rounding of the
  one addition): the one-entry flu incidence is stretched over the 30 entries of the
  penetration array, each of which is multiplied by it; the net income has 30 entries;
  the pairing with the one-entry year index keeps the first of them only.
\<close>

theorem get_npv_one_year:
  "n_flu (default_params\<lparr>n_years := 1\<rparr>)
     = [get_flu_rate default_params * (us_population default_params * 1)] \<and>
   length (penetration_curve default_params) = 30 \<and>
   n_patients_treated (default_params\<lparr>n_years := 1\<rparr>)
     = Inr (map (\<lambda>m. m * (get_flu_rate default_params * (us_population default_params * 1)))
              (penetration_curve default_params)) \<and>
   map_sum id length (net_income (default_params\<lparr>n_years := 1\<rparr>)) = Inr 30 \<and>
   map_sum id hd (net_income (default_params\<lparr>n_years := 1\<rparr>))
     = Inr (- (clindev_sga default_params + rd_cost_scaler default_params * 3.515)) \<and>
   map_sum id length (dcfs (default_params\<lparr>n_years := 1\<rparr>)) = Inr 1 \<and>
   get_npv (default_params\<lparr>n_years := 1\<rparr>)
     = Inr (Finite (- (clindev_sga default_params + rd_cost_scaler default_params * 3.515))) \<and>
   \<bar>- (clindev_sga default_params + rd_cost_scaler default_params * 3.515) + 4.015\<bar>
     \<le> 1 / 10 ^ 12"
proof -
  have "length (penetration_curve default_params) = 30"
    by (simp add: length_penetration_curve default_params_def)
  moreover have
    "map_sum id length (net_income (default_params\<lparr>n_years := 1\<rparr>)) = Inr 30 \<and>
     map_sum id hd (net_income (default_params\<lparr>n_years := 1\<rparr>))
       = Inr (- (clindev_sga default_params + rd_cost_scaler default_params * 3.515)) \<and>
     map_sum id length (dcfs (default_params\<lparr>n_years := 1\<rparr>)) = Inr 1 \<and>
     get_npv (default_params\<lparr>n_years := 1\<rparr>)
       = Inr (Finite (- (clindev_sga default_params + rd_cost_scaler default_params * 3.515)))"
    by (simp add: pipeline_defs default_params_def n_flu_def population_def np_arange_def
        patent_effective_def post_patent_def np_ones_def nr_costs_def dev_costs_def
        rd_costs_def rd_costs_baseline_def np_sum_def np_div_def replicate_numeral)
  moreover have
    "\<bar>- (clindev_sga default_params + rd_cost_scaler default_params * 3.515) + 4.015\<bar>
       \<le> 1 / 10 ^ 12"
    by (simp add: default_params_def)
  ultimately show ?thesis
    using one_year_n_flu one_year_patients by blast
qed

section \<open>The penetration curve\<close>

lemma penetration_curve_pre:
  "i < nat (lead_time_years P) \<Longrightarrow> penetration_curve P ! i = 0"
  by (simp add: penetration_curve_def nth_append)

lemma penetration_curve_patent:
  assumes "nat (lead_time_years P) \<le> i"
    and "i < nat (lead_time_years P) + nat (patent_exclusive_years P)"
  shows "penetration_curve P ! i =
     max_penetration P /
       (1 + exp (- (hill_coefficient P *
                    (real (i - nat (lead_time_years P)) - inflection_year P))))"
proof -
  let ?l = "nat (lead_time_years P)"
  from assms have j: "i - ?l < nat (patent_exclusive_years P)" by linarith
  from assms(1) have "penetration_curve P ! i = (patent_effective P @ post_patent P) ! (i - ?l)"
    by (simp add: penetration_curve_def nth_append)
  also from j have "\<dots> = patent_effective P ! (i - ?l)"
    by (simp add: nth_append length_patent_effective)
  also from j have "\<dots> = max_penetration P /
       (1 + exp (- (hill_coefficient P * (real (i - ?l) - inflection_year P))))"
    by (simp add: patent_effective_def np_arange_def)
  finally show ?thesis .
qed

lemma penetration_curve_post:
  assumes "nat (lead_time_years P) + nat (patent_exclusive_years P) \<le> i"
    and "i < nat (lead_time_years P) + nat (patent_exclusive_years P) + 5"
  shows "penetration_curve P ! i = penetration_upon_patent_loss P"
proof -
  let ?l = "nat (lead_time_years P)" and ?p = "nat (patent_exclusive_years P)"
  from assms have j: "i - ?l - ?p < 5" and k: "\<not> i - ?l < ?p" and l: "?l \<le> i"
    by linarith+
  from l have "penetration_curve P ! i = (patent_effective P @ post_patent P) ! (i - ?l)"
    by (simp add: penetration_curve_def nth_append)
  also from k have "\<dots> = post_patent P ! (i - ?l - ?p)"
    by (simp add: nth_append length_patent_effective)
  also from j have "\<dots> = penetration_upon_patent_loss P"
    by (simp add: post_patent_def np_ones_def)
  finally show ?thesis .
qed

text \<open>
  Claim C4, as stated, fails where there is no exclusivity year. With
  \<open>lead_time_years = 25\<close> and \<open>patent_exclusive_years = 0\<close> (so that
  \<open>25 + 0 + 5 = n_years = 30\<close>) the entry at index \<open>lead_time_years\<close> is already the
  first post-patent entry, 0.05, and not the logistic value.
\<close>

theorem market_penetration_no_exclusivity:
  "market_penetration (default_params\<lparr>lead_time_years := 25, patent_exclusive_years := 0\<rparr>)
     = Inr (replicate 25 0 @ replicate 5 0.05) \<and>
   (replicate 25 0 @ replicate 5 (0.05::real)) ! 25 = 0.05 \<and>
   (0.05::real) \<noteq> 0.5 / (1 + exp (7 * 1.5))"
proof -
  have "(9::real) < exp (7 * 1.5)"
    using exp_ge_add_one_self[of "7 * 1.5 :: real"] by simp
  then have "(0.05::real) \<noteq> 0.5 / (1 + exp (7 * 1.5))"
    by (simp add: field_simps)
  then show ?thesis
    by (simp add: market_penetration_def pre_approval_def np_zeros_def patent_effective_def
        post_patent_def np_ones_def np_arange_def default_params_def nth_append)
qed

text \<open>
  Claim C4, amended. For \<open>lead_time_years \<ge> 1\<close>, \<open>patent_exclusive_years \<ge> 1\<close> and
  \<open>lead_time_years + patent_exclusive_years + 5 = n_years\<close>, the penetration array has
  \<open>n_years\<close> entries, is 0 at index \<open>lead_time_years - 1\<close>, is
  \<open>max_penetration / (1 + exp (hill_coefficient * inflection_year))\<close> at index
  \<open>lead_time_years\<close>, and is \<open>penetration_upon_patent_loss\<close> at the first post-patent
  index.
\<close>

theorem market_penetration_boundaries:
  assumes "1 \<le> lead_time_years P" and "1 \<le> patent_exclusive_years P"
    and "lead_time_years P + patent_exclusive_years P + 5 = n_years P"
  shows "\<exists>mp. market_penetration P = Inr mp \<and> length mp = nat (n_years P) \<and>
     mp ! nat (lead_time_years P - 1) = 0 \<and>
     mp ! nat (lead_time_years P) =
       max_penetration P / (1 + exp (hill_coefficient P * inflection_year P)) \<and>
     mp ! nat (lead_time_years P + patent_exclusive_years P) =
       penetration_upon_patent_loss P"
proof -
  from assms(1) have mp: "market_penetration P = Inr (penetration_curve P)"
    by (simp add: market_penetration_curve)
  from assms have len: "length (penetration_curve P) = nat (n_years P)"
    by (auto simp: length_penetration_curve)
  from assms(1) have a: "penetration_curve P ! nat (lead_time_years P - 1) = 0"
    by (simp add: penetration_curve_pre)
  from assms(1,2) have b: "penetration_curve P ! nat (lead_time_years P) =
      max_penetration P / (1 + exp (hill_coefficient P * inflection_year P))"
    by (simp add: penetration_curve_patent)
  from assms(1,2) have c:
    "penetration_curve P ! nat (lead_time_years P + patent_exclusive_years P) =
      penetration_upon_patent_loss P"
    by (simp add: penetration_curve_post nat_add_distrib)
  from mp len a b c show ?thesis by simp
qed

theorem market_penetration_boundaries_witness:
  "\<exists>mp. market_penetration default_params = Inr mp \<and> length mp = 30 \<and>
     mp ! 5 = 0 \<and> mp ! 6 = 0.5 / (1 + exp (7 * 1.5)) \<and> mp ! 25 = 0.05"
  using market_penetration_boundaries[of default_params]
  by (simp add: default_params_def)

lemma logistic_mono:
  fixes h c m :: real
  assumes "0 < h" and "0 \<le> m" and "i \<le> j"
  shows "m / (1 + exp (- (h * (real i - c)))) \<le> m / (1 + exp (- (h * (real j - c))))"
proof -
  from assms(1,3) have "h * (real i - c) \<le> h * (real j - c)"
    by (simp add: mult_left_mono)
  then have "1 + exp (- (h * (real j - c))) \<le> 1 + exp (- (h * (real i - c)))"
    by simp
  then show ?thesis
    using assms(2) by (intro divide_left_mono) (simp_all add: add_pos_pos)
qed

lemma logistic_bounds:
  fixes m x :: real
  assumes "0 < m"
  shows "0 < m / (1 + exp x)" and "m / (1 + exp x) < m"
proof -
  have p: "0 < 1 + exp x" by (simp add: add_pos_pos)
  with assms show "0 < m / (1 + exp x)" by simp
  have "m / (1 + exp x) < m / 1"
    using assms by (intro divide_strict_left_mono) (simp_all add: add_pos_pos)
  then show "m / (1 + exp x) < m" by simp
qed

text \<open>
  The patent-exclusive segment is nondecreasing for \<open>hill_coefficient > 0\<close> and
  \<open>max_penetration \<ge> 0\<close>, and its entries lie between 0 and \<open>max_penetration\<close>, both
  bounds included: in binary64 \<open>1 + exp x\<close> rounds to 1 for \<open>x\<close> below \<open>-37\<close>, so that an
  entry can equal \<open>max_penetration\<close>, and \<open>exp x\<close> overflows for large \<open>x\<close>, so that an entry
  can be 0.
\<close>

lemma patent_effective_sorted_bounded:
  assumes "0 < hill_coefficient P" and "0 \<le> max_penetration P"
  shows "sorted (patent_effective P)"
    and "x \<in> set (patent_effective P) \<Longrightarrow> 0 \<le> x \<and> x \<le> max_penetration P"
proof -
  show "sorted (patent_effective P)"
    unfolding sorted_iff_nth_mono
    using assms by (auto simp: patent_effective_def np_arange_def intro!: logistic_mono)
  assume x: "x \<in> set (patent_effective P)"
  show "0 \<le> x \<and> x \<le> max_penetration P"
    using x assms(2) logistic_bounds[of "max_penetration P"]
    by (cases "max_penetration P = 0"; force simp: patent_effective_def less_eq_real_def)
qed

section \<open>Revenue and cost parts of the result\<close>

lemma nr_costs_pv_30:
  "n_years P = 30 \<Longrightarrow>
   nr_costs_pv P = (\<Sum>i\<leftarrow>[0..<30]. nr_costs P ! i / (1 + discount_rate P) ^ i)"
  by (simp add: nr_costs_pv_def np_arange_def zip_upt[OF length_nr_costs] comp_def)

lemma npv_sum_split:
  "(\<Sum>i\<leftarrow>[0..<30]. net_income_at P i / (1 + discount_rate P) ^ i) =
     cost_per_unit P * (1 - cost_of_revenue P) * patients_pv P
     - (\<Sum>i\<leftarrow>[0..<30]. nr_costs P ! i / (1 + discount_rate P) ^ i)"
proof -
  let ?k = "cost_per_unit P * (1 - cost_of_revenue P)"
  let ?a = "\<lambda>i. penetration_curve P ! i * n_flu P ! i / (1 + discount_rate P) ^ i"
  let ?b = "\<lambda>i. nr_costs P ! i / (1 + discount_rate P) ^ i"
  have "(\<Sum>i\<leftarrow>[0..<30]. net_income_at P i / (1 + discount_rate P) ^ i) =
      (\<Sum>i\<leftarrow>[0..<30]. ?k * ?a i - ?b i)"
    by (rule arg_cong[where f = sum_list], rule map_cong)
       (simp_all add: net_income_at_def algebra_simps diff_divide_distrib add_divide_distrib)
  also have "\<dots> = (\<Sum>i\<leftarrow>[0..<30]. ?k * ?a i) - (\<Sum>i\<leftarrow>[0..<30]. ?b i)"
    by (rule sum_list_subtractf)
  also have "(\<Sum>i\<leftarrow>[0..<30]. ?k * ?a i) = ?k * patients_pv P"
    unfolding patients_pv_def by (rule sum_list_const_mult)
  finally show ?thesis .
qed

lemma get_npv_split:
  assumes "shapes_30 P" and "discount_rate P \<noteq> - 1"
  shows "get_npv P =
     Inr (Finite (cost_per_unit P * (1 - cost_of_revenue P) * patients_pv P
                  - nr_costs_pv P))"
proof -
  from assms(1) have "n_years P = 30" by (simp add: shapes_30_def)
  then show ?thesis
    by (simp add: get_npv_30[OF assms] npv_sum_split nr_costs_pv_30)
qed


lemma penetration_curve_nonneg:
  assumes "0 \<le> max_penetration P" and "0 \<le> penetration_upon_patent_loss P"
    and "x \<in> set (penetration_curve P)"
  shows "0 \<le> x"
proof -
  have "0 \<le> 1 + exp y" for y :: real
    using exp_ge_zero[of y] by linarith
  with assms show ?thesis
    by (auto simp: penetration_curve_def patent_effective_def post_patent_def np_ones_def)
qed

lemma penetration_curve_zero:
  assumes "max_penetration P = 0" and "penetration_upon_patent_loss P = 0"
    and "x \<in> set (penetration_curve P)"
  shows "x = 0"
  using assms
  by (auto simp: penetration_curve_def patent_effective_def post_patent_def np_ones_def)

lemma n_flu_pos:
  assumes "0 < get_flu_rate P" and "0 < us_population P"
    and "- 1 < us_population_growth_rate P" and "i < nat (n_years P)"
  shows "0 < n_flu P ! i"
  using assms by (simp add: n_flu_nth)

lemma sum_list_pos_exists:
  fixes f :: "'a \<Rightarrow> real"
  assumes "\<And>x. x \<in> set xs \<Longrightarrow> 0 \<le> f x" and "k \<in> set xs" and "0 < f k"
  shows "0 < (\<Sum>x\<leftarrow>xs. f x)"
  using assms
proof (induction xs)
  case Nil
  then show ?case by simp
next
  case (Cons a xs)
  have rest: "0 \<le> (\<Sum>x\<leftarrow>xs. f x)"
    by (rule sum_list_nonneg) (use Cons.prems(1) in auto)
  show ?case
  proof (cases "k = a")
    case True
    with Cons.prems(3) rest show ?thesis by simp
  next
    case False
    with Cons.prems have "k \<in> set xs" by simp
    with Cons have "0 < (\<Sum>x\<leftarrow>xs. f x)" by simp
    moreover have "0 \<le> f a" using Cons.prems(1) by simp
    ultimately show ?thesis by simp
  qed
qed

lemma patients_pv_pos:
  assumes s: "shapes_30 P" and d: "- 1 < discount_rate P"
    and f: "0 < get_flu_rate P" "0 < us_population P" "- 1 < us_population_growth_rate P"
    and m: "0 \<le> max_penetration P" "0 \<le> penetration_upon_patent_loss P"
    and some: "0 < penetration_upon_patent_loss P \<or>
               (0 < max_penetration P \<and> 1 \<le> patent_exclusive_years P)"
  shows "0 < patients_pv P"
proof -
  let ?f = "\<lambda>i. penetration_curve P ! i * n_flu P ! i / (1 + discount_rate P) ^ i"
  from s have n: "nat (n_years P) = 30" by (simp add: shapes_30_def)
  note len = shapes_30_lengths[OF s]
  from d have q: "0 < (1 + discount_rate P) ^ i" for i by simp
  have fl: "0 < n_flu P ! i" if "i < 30" for i
    using that n_flu_pos[OF f] n by simp
  have nonneg: "0 \<le> ?f i" if "i \<in> set [0..<30]" for i
  proof -
    from that have i: "i < 30" by simp
    then have "penetration_curve P ! i \<in> set (penetration_curve P)"
      by (simp add: len)
    then have "0 \<le> penetration_curve P ! i"
      by (rule penetration_curve_nonneg[OF m])
    with fl[OF i] q[of i] show ?thesis by simp
  qed
  from s have l: "nat (lead_time_years P) + nat (patent_exclusive_years P) = 25"
    by (auto simp: shapes_30_def)
  have "\<exists>k<30. 0 < penetration_curve P ! k"
  proof (cases "0 < penetration_upon_patent_loss P")
    case True
    have "penetration_curve P ! 29 = penetration_upon_patent_loss P"
      by (rule penetration_curve_post) (simp_all add: l)
    with True show ?thesis by (intro exI[of _ 29]) simp
  next
    case False
    with some have mp: "0 < max_penetration P" and pe: "1 \<le> patent_exclusive_years P"
      by simp_all
    let ?k = "nat (lead_time_years P)"
    from pe l have k: "?k < nat (lead_time_years P) + nat (patent_exclusive_years P)" "?k < 30"
      by linarith+
    have "0 < penetration_curve P ! ?k"
      unfolding penetration_curve_patent[OF le_refl k(1)]
      by (rule logistic_bounds(1)[OF mp])
    with k(2) show ?thesis by blast
  qed
  then obtain k where k: "k < 30" "0 < penetration_curve P ! k" by blast
  with fl[OF k(1)] q[of k] have "0 < ?f k" by simp
  moreover from k(1) have "k \<in> set [0..<30]" by simp
  ultimately show ?thesis
    unfolding patients_pv_def using nonneg by (intro sum_list_pos_exists[where k = k])
qed

lemma patients_pv_zero:
  assumes "shapes_30 P" and "max_penetration P = 0" and "penetration_upon_patent_loss P = 0"
  shows "patients_pv P = 0"
proof -
  have "penetration_curve P ! i = 0" if "i < 30" for i
  proof -
    from that have "penetration_curve P ! i \<in> set (penetration_curve P)"
      by (simp add: shapes_30_lengths[OF assms(1)])
    then show ?thesis by (rule penetration_curve_zero[OF assms(2,3)])
  qed
  then have "map (\<lambda>i. penetration_curve P ! i * n_flu P ! i / (1 + discount_rate P) ^ i) [0..<30]
      = map (\<lambda>i. 0) [0..<30]"
    by (intro map_cong) simp_all
  then have "patients_pv P = (\<Sum>i\<leftarrow>[0..<30]. 0)"
    unfolding patients_pv_def by (rule arg_cong)
  then show ?thesis by simp
qed

text \<open>
  Claim C5, as stated, fails: the post-patent penetration is its own parameter and does
  not depend on \<open>max_penetration\<close>. At \<open>max_penetration = 0\<close> with the other defaults
  the five post-patent years still sell at a penetration of 0.05, and the result is not
  the negated present value of the non-revenue costs.
\<close>

theorem zero_max_penetration_still_earns:
  "get_npv (default_params\<lparr>max_penetration := 0\<rparr>)
     \<noteq> Inr (Finite (- nr_costs_pv (default_params\<lparr>max_penetration := 0\<rparr>)))"
proof -
  let ?P = "default_params\<lparr>max_penetration := 0\<rparr>"
  have s: "shapes_30 ?P" by (simp add: shapes_30_def default_params_def)
  have d: "discount_rate ?P \<noteq> - 1" by (simp add: default_params_def)
  have "0 < patients_pv ?P"
    by (rule patients_pv_pos[OF s]) (simp_all add: default_params_def)
  moreover have "0 < cost_per_unit ?P * (1 - cost_of_revenue ?P)"
    by (simp add: default_params_def)
  ultimately have "0 < cost_per_unit ?P * (1 - cost_of_revenue ?P) * patients_pv ?P"
    by (rule mult_pos_pos[rotated])
  then have "cost_per_unit ?P * (1 - cost_of_revenue ?P) * patients_pv ?P - nr_costs_pv ?P
      \<noteq> - nr_costs_pv ?P"
    by linarith
  then show ?thesis
    unfolding get_npv_split[OF s d] by blast
qed


lemma revenue_30:
  assumes "shapes_30 P"
  shows "revenue P =
     Inr (map (\<lambda>i. penetration_curve P ! i * n_flu P ! i * cost_per_unit P) [0..<30])"
proof -
  note len = shapes_30_lengths[OF assms]
  from assms have mp: "market_penetration P = Inr (penetration_curve P)"
    by (simp add: shapes_30_def market_penetration_curve)
  have pt: "n_patients_treated P
      = Inr (map (\<lambda>i. penetration_curve P ! i * n_flu P ! i) [0..<30])"
    by (simp add: n_patients_treated_def mp broadcast_same len map2_upt[where n = 30])
  show ?thesis by (simp add: revenue_def pt)
qed

lemma revenue_zero:
  assumes "shapes_30 P" and "max_penetration P = 0" and "penetration_upon_patent_loss P = 0"
  shows "revenue P = Inr (replicate 30 0)"
proof -
  have "penetration_curve P ! i = 0" if "i < 30" for i
  proof -
    from that have "penetration_curve P ! i \<in> set (penetration_curve P)"
      by (simp add: shapes_30_lengths[OF assms(1)])
    then show ?thesis by (rule penetration_curve_zero[OF assms(2,3)])
  qed
  then have "map (\<lambda>i. penetration_curve P ! i * n_flu P ! i * cost_per_unit P) [0..<30]
      = map (\<lambda>i. 0) [0..<30]"
    by (intro map_cong) simp_all
  also have "\<dots> = replicate 30 0"
    by (simp add: map_replicate_const)
  finally show ?thesis by (simp only: revenue_30[OF assms(1)])
qed

text \<open>
  Claim C5, amended. If \<open>max_penetration = 0\<close> and also
  \<open>penetration_upon_patent_loss = 0\<close> (30-entry shapes, parameters within
  \<open>sensible_ranges\<close>), the revenue is 0 in every one of the 30 years and \<open>get_npv\<close> returns
  the negated sum of the discounted non-revenue costs.
\<close>

theorem zero_penetration_npv:
  assumes "0 \<le> lead_time_years P" and "0 \<le> patent_exclusive_years P"
    and "lead_time_years P + patent_exclusive_years P + 5 = n_years P"
    and "n_years P = 30"
    and "sensible_ranges P"
    and "max_penetration P = 0" and "penetration_upon_patent_loss P = 0"
  shows "revenue P = Inr (replicate 30 0) \<and> get_npv P = Inr (Finite (- nr_costs_pv P))"
proof -
  from assms(1-4) have s: "shapes_30 P" by (simp add: shapes_30_def)
  from assms(5) have d: "discount_rate P \<noteq> - 1" by (simp add: sensible_ranges_def)
  have "get_npv P = Inr (Finite (- nr_costs_pv P))"
    by (simp add: get_npv_split[OF s d] patients_pv_zero[OF s assms(6,7)])
  with revenue_zero[OF s assms(6,7)] show ?thesis by simp
qed

theorem zero_penetration_npv_witness:
  "sensible_ranges (default_params\<lparr>max_penetration := 0, penetration_upon_patent_loss := 0\<rparr>) \<and>
   revenue (default_params\<lparr>max_penetration := 0, penetration_upon_patent_loss := 0\<rparr>)
     = Inr (replicate 30 0) \<and>
   get_npv (default_params\<lparr>max_penetration := 0, penetration_upon_patent_loss := 0\<rparr>)
     = Inr (Finite
         (- nr_costs_pv (default_params\<lparr>max_penetration := 0, penetration_upon_patent_loss := 0\<rparr>)))"
proof -
  let ?P = "default_params\<lparr>max_penetration := 0, penetration_upon_patent_loss := 0\<rparr>"
  have r: "sensible_ranges ?P"
    by (simp add: sensible_ranges_def default_params_def)
  from zero_penetration_npv[of ?P, OF _ _ _ _ r] r show ?thesis
    by (simp add: default_params_def)
qed

lemma npv_diff_split:
  assumes "shapes_30 P" and "discount_rate P \<noteq> - 1"
    and "shapes_30 Q" and "discount_rate Q \<noteq> - 1"
  shows "npv_diff P Q =
     Some ((cost_per_unit P * (1 - cost_of_revenue P) * patients_pv P - nr_costs_pv P)
           - (cost_per_unit Q * (1 - cost_of_revenue Q) * patients_pv Q - nr_costs_pv Q))"
  by (simp add: npv_diff_def get_npv_split[OF assms(1,2)] get_npv_split[OF assms(3,4)])

lemma cost_per_unit_update [simp]:
  "shapes_30 (P\<lparr>cost_per_unit := p\<rparr>) = shapes_30 P"
  "patients_pv (P\<lparr>cost_per_unit := p\<rparr>) = patients_pv P"
  "nr_costs_pv (P\<lparr>cost_per_unit := p\<rparr>) = nr_costs_pv P"
  by (simp_all add: shapes_30_def patients_pv_def nr_costs_pv_def penetration_curve_def
      patent_effective_def post_patent_def n_flu_def population_def nr_costs_def
      dev_costs_def rd_costs_def)


lemma sensible_rates:
  assumes "sensible_ranges P"
  shows "- 1 \<le> us_population_growth_rate P" and "- 1 < discount_rate P"
    and "discount_rate P \<noteq> - 1"
proof -
  from assms have g: "\<bar>us_population_growth_rate P\<bar> \<le> 1" and d: "- (1 / 2) \<le> discount_rate P"
    by (simp_all add: sensible_ranges_def)
  from g show "- 1 \<le> us_population_growth_rate P" by linarith
  from d show "- 1 < discount_rate P" by linarith
  then show "discount_rate P \<noteq> - 1" by simp
qed





section \<open>The R&D cost scaler\<close>

lemma length_rd_costs: "length (rd_costs P) = 6"
  by (simp add: rd_costs_def rd_costs_baseline_def)

lemma nr_costs_nth_dev: "i < 6 \<Longrightarrow> nr_costs P ! i = clindev_sga P + rd_costs P ! i"
  by (simp add: nr_costs_def dev_costs_def nth_append length_rd_costs)

lemma nr_costs_nth_zero:
  assumes "6 \<le> i" and "i < 30"
  shows "nr_costs P ! i = 0"
proof -
  from assms have "i - 6 < 24" by linarith
  with assms(1) show ?thesis
    by (simp add: nr_costs_def dev_costs_def nth_append length_rd_costs)
qed

lemma upt_30_split: "[0..<30] = [0..<6] @ [6..<30]"
  using upt_add_eq_append[of 0 6 24] by simp

lemma nr_costs_pv_6:
  assumes "n_years P = 30"
  shows "nr_costs_pv P =
     (\<Sum>i\<leftarrow>[0..<6]. (clindev_sga P + rd_costs P ! i) / (1 + discount_rate P) ^ i)"
proof -
  let ?t = "\<lambda>i. nr_costs P ! i / (1 + discount_rate P) ^ i"
  have a: "map ?t [0..<6] =
      map (\<lambda>i. (clindev_sga P + rd_costs P ! i) / (1 + discount_rate P) ^ i) [0..<6]"
    by (intro map_cong) (simp_all add: nr_costs_nth_dev del: upt_rec_numeral)
  have b: "map ?t [6..<30] = map (\<lambda>i. 0) [6..<30]"
    by (intro map_cong) (simp_all add: nr_costs_nth_zero del: upt_rec_numeral)
  have "nr_costs_pv P = sum_list (map ?t [0..<6]) + sum_list (map ?t [6..<30])"
    unfolding nr_costs_pv_30[OF assms] upt_30_split by simp
  also have "sum_list (map ?t [6..<30]) = 0"
    unfolding b by simp
  finally show ?thesis
    unfolding a by simp
qed

lemma rd_costs_pv_6:
  assumes "n_years P = 30"
  shows "rd_costs_pv P = (\<Sum>i\<leftarrow>[0..<6]. rd_costs P ! i / (1 + discount_rate P) ^ i)"
proof -
  have "zip (rd_costs P) [0..<30] = map (\<lambda>i. (rd_costs P ! i, i)) [0..<6]"
    by (rule nth_equalityI) (simp_all add: length_rd_costs)
  then show ?thesis
    by (simp add: rd_costs_pv_def np_arange_def assms comp_def)
qed

lemma rd_cost_scaler_update [simp]:
  "shapes_30 (P\<lparr>rd_cost_scaler := k\<rparr>) = shapes_30 P"
  "patients_pv (P\<lparr>rd_cost_scaler := k\<rparr>) = patients_pv P"
  by (simp_all add: shapes_30_def patients_pv_def penetration_curve_def
      patent_effective_def post_patent_def n_flu_def population_def)

lemma length_rd_costs_baseline: "length rd_costs_baseline = 6"
  by (simp add: rd_costs_baseline_def)

lemma rd_costs_doubled:
  "i < 6 \<Longrightarrow>
   rd_costs (P\<lparr>rd_cost_scaler := 2 * rd_cost_scaler P\<rparr>) ! i = 2 * rd_costs P ! i"
  by (simp add: rd_costs_def length_rd_costs_baseline)

lemma nr_costs_pv_doubled:
  assumes "n_years P = 30"
  shows "nr_costs_pv (P\<lparr>rd_cost_scaler := 2 * rd_cost_scaler P\<rparr>) =
     nr_costs_pv P + rd_costs_pv P"
proof -
  let ?Q = "P\<lparr>rd_cost_scaler := 2 * rd_cost_scaler P\<rparr>"
  from assms have n: "n_years ?Q = 30" by simp
  have "map (\<lambda>i. (clindev_sga ?Q + rd_costs ?Q ! i) / (1 + discount_rate ?Q) ^ i) [0..<6] =
      map (\<lambda>i. (clindev_sga P + rd_costs P ! i) / (1 + discount_rate P) ^ i
               + rd_costs P ! i / (1 + discount_rate P) ^ i) [0..<6]"
    by (intro map_cong) (simp_all add: rd_costs_doubled add_divide_distrib)
  then show ?thesis
    unfolding nr_costs_pv_6[OF n] nr_costs_pv_6[OF assms] rd_costs_pv_6[OF assms]
    by (simp only: sum_list_addf)
qed

lemma npv_diff_rd_scaler:
  assumes "shapes_30 P" and "discount_rate P \<noteq> - 1"
  shows "npv_diff P (P\<lparr>rd_cost_scaler := 2 * rd_cost_scaler P\<rparr>) = Some (rd_costs_pv P)"
proof -
  from assms(1) have n: "n_years P = 30" by (simp add: shapes_30_def)
  show ?thesis
    using assms by (simp add: npv_diff_split nr_costs_pv_doubled[OF n])
qed

text \<open>
  Claim C7, as stated, fails: \<open>clindev_sga\<close> is added to the six development years
  unscaled, so doubling \<open>rd_cost_scaler\<close> does not double the non-revenue costs. At the
  defaults the result does not drop by the present value of the original non-revenue
  costs.
\<close>

theorem doubling_keeps_sga:
  "npv_diff default_params (default_params\<lparr>rd_cost_scaler := 2\<rparr>)
     \<noteq> Some (nr_costs_pv default_params)"
proof -
  have s: "shapes_30 default_params" by (simp add: shapes_30_def default_params_def)
  have d: "discount_rate default_params \<noteq> - 1" by (simp add: default_params_def)
  have n: "n_years default_params = 30" by (simp add: default_params_def)
  have "nr_costs_pv default_params =
      (\<Sum>i\<leftarrow>[0..<6]. clindev_sga default_params / (1 + discount_rate default_params) ^ i)
      + rd_costs_pv default_params"
    unfolding nr_costs_pv_6[OF n] rd_costs_pv_6[OF n]
    by (simp only: sum_list_addf[symmetric] add_divide_distrib)
  moreover have
    "0 < (\<Sum>i\<leftarrow>[0..<6]. clindev_sga default_params / (1 + discount_rate default_params) ^ i)"
    by (rule sum_list_pos_exists[where k = 0]) (simp_all add: default_params_def)
  ultimately have "rd_costs_pv default_params \<noteq> nr_costs_pv default_params"
    by linarith
  moreover have "default_params\<lparr>rd_cost_scaler := 2\<rparr>
      = default_params\<lparr>rd_cost_scaler := 2 * rd_cost_scaler default_params\<rparr>"
    by (simp add: default_params_def)
  ultimately show ?thesis
    using npv_diff_rd_scaler[OF s d] by simp
qed

text \<open>
  Claim C7, amended. On 30-entry shapes, with the parameters within \<open>sensible_ranges\<close>
  before and after the doubling, doubling \<open>rd_cost_scaler\<close> lowers the result by the
  present value of the original scaled R&D costs \<open>rd_cost_scaler * baseline\<close>, the SG&A
  part of the non-revenue costs left out.
\<close>

theorem doubling_rd_cost_scaler:
  assumes "0 \<le> lead_time_years P" and "0 \<le> patent_exclusive_years P"
    and "lead_time_years P + patent_exclusive_years P + 5 = n_years P"
    and "n_years P = 30"
    and "sensible_ranges P"
    and "sensible_ranges (P\<lparr>rd_cost_scaler := 2 * rd_cost_scaler P\<rparr>)"
  shows "npv_diff P (P\<lparr>rd_cost_scaler := 2 * rd_cost_scaler P\<rparr>) = Some (rd_costs_pv P)"
proof (rule npv_diff_rd_scaler)
  from assms(1-4) show "shapes_30 P" by (simp add: shapes_30_def)
  from assms(5) show "discount_rate P \<noteq> - 1" by (rule sensible_rates(3))
qed

theorem doubling_rd_cost_scaler_witness:
  "sensible_ranges default_params \<and>
   sensible_ranges (default_params\<lparr>rd_cost_scaler := 2\<rparr>) \<and>
   npv_diff default_params (default_params\<lparr>rd_cost_scaler := 2\<rparr>)
     = Some (rd_costs_pv default_params)"
proof -
  have r: "sensible_ranges default_params"
    "sensible_ranges (default_params\<lparr>rd_cost_scaler := 2 * rd_cost_scaler default_params\<rparr>)"
    by (simp_all add: sensible_ranges_def default_params_def)
  have "npv_diff default_params
      (default_params\<lparr>rd_cost_scaler := 2 * rd_cost_scaler default_params\<rparr>)
      = Some (rd_costs_pv default_params)"
    by (rule doubling_rd_cost_scaler[OF _ _ _ _ r]) (simp_all add: default_params_def)
  moreover have "default_params\<lparr>rd_cost_scaler := 2 * rd_cost_scaler default_params\<rparr>
      = default_params\<lparr>rd_cost_scaler := 2\<rparr>"
    by (simp add: default_params_def)
  ultimately show ?thesis using r by simp
qed

section \<open>The discount rate\<close>

lemma discount_rate_update [simp]:
  "shapes_30 (P\<lparr>discount_rate := d\<rparr>) = shapes_30 P"
  "net_income_at (P\<lparr>discount_rate := d\<rparr>) i = net_income_at P i"
  by (simp_all add: shapes_30_def net_income_at_def penetration_curve_def
      patent_effective_def post_patent_def n_flu_def population_def nr_costs_def
      dev_costs_def rd_costs_def)




subsection \<open>Net income at the default parameters\<close>




















section \<open>Magnitudes within the sensible ranges\<close>

text \<open>
  Within \<open>sensible_ranges\<close> every array entry and every discounted cash flow stays far
  below the largest binary64 number, about \<open>1.8 * 10^308\<close>: a flu incidence is at most
  \<open>10^15\<close>, a net income at most \<open>10^34\<close>, a discounted cash flow at most \<open>10^44\<close> and their
  sum at most \<open>10^46\<close> in absolute value.
\<close>

lemma penetration_curve_abs:
  assumes "\<bar>max_penetration P\<bar> \<le> m" and "\<bar>penetration_upon_patent_loss P\<bar> \<le> m"
    and "x \<in> set (penetration_curve P)"
  shows "\<bar>x\<bar> \<le> m"
proof -
  have "\<bar>max_penetration P / (1 + exp y)\<bar> \<le> \<bar>max_penetration P\<bar>" for y :: real
  proof -
    have "1 \<le> 1 + exp y" by simp
    then have "\<bar>max_penetration P\<bar> / (1 + exp y) \<le> \<bar>max_penetration P\<bar> / 1"
      by (intro divide_left_mono) (simp_all add: add_pos_pos)
    moreover have "\<bar>1 + exp y\<bar> = 1 + exp y"
      by (simp add: abs_if add_pos_pos not_less add_nonneg_nonneg)
    ultimately show ?thesis by (simp add: abs_divide)
  qed
  with assms(1) have pe: "\<bar>max_penetration P / (1 + exp y)\<bar> \<le> m" for y :: real
    by (meson order_trans)
  from assms(1) have "0 \<le> m" by linarith
  with assms(2,3) pe show ?thesis
    by (auto simp: penetration_curve_def patent_effective_def post_patent_def np_ones_def)
qed

lemma n_flu_abs:
  assumes "sensible_ranges P" and "i < nat (n_years P)" and "i < 30"
  shows "\<bar>n_flu P ! i\<bar> \<le> 10 ^ 15"
proof -
  from assms(1) have f: "\<bar>get_flu_rate P\<bar> \<le> 1" and p: "\<bar>us_population P\<bar> \<le> 10 ^ 6"
    and g: "\<bar>us_population_growth_rate P\<bar> \<le> 1"
    by (simp_all add: sensible_ranges_def)
  from g have "\<bar>1 + us_population_growth_rate P\<bar> \<le> 2" by linarith
  then have "\<bar>1 + us_population_growth_rate P\<bar> ^ i \<le> 2 ^ i"
    by (intro power_mono) simp_all
  also from assms(3) have "(2::real) ^ i \<le> 2 ^ 29"
    by (intro power_increasing) simp_all
  finally have gi: "\<bar>(1 + us_population_growth_rate P) ^ i\<bar> \<le> 2 ^ 29"
    by (simp add: power_abs)
  have pg: "\<bar>us_population P\<bar> * \<bar>(1 + us_population_growth_rate P) ^ i\<bar>
      \<le> 10 ^ 6 * 2 ^ 29"
    by (rule mult_mono[OF p gi]) simp_all
  have "\<bar>get_flu_rate P\<bar>
      * (\<bar>us_population P\<bar> * \<bar>(1 + us_population_growth_rate P) ^ i\<bar>) \<le> 1 * (10 ^ 6 * 2 ^ 29)"
    by (rule mult_mono[OF f pg]) simp_all
  also have "(1::real) * (10 ^ 6 * 2 ^ 29) \<le> 10 ^ 15" by simp
  finally show ?thesis
    by (simp add: n_flu_nth[OF assms(2)] abs_mult)
qed

lemma rd_costs_baseline_abs: "b \<in> set rd_costs_baseline \<Longrightarrow> \<bar>b\<bar> \<le> 24"
  by (auto simp: rd_costs_baseline_def)

lemma nr_costs_abs:
  assumes "sensible_ranges P" and "i < 30"
  shows "\<bar>nr_costs P ! i\<bar> \<le> 10 ^ 8"
proof (cases "i < 6")
  case True
  from assms(1) have c: "\<bar>clindev_sga P\<bar> \<le> 10 ^ 6" and k: "\<bar>rd_cost_scaler P\<bar> \<le> 10 ^ 6"
    by (simp_all add: sensible_ranges_def)
  from True have "rd_costs_baseline ! i \<in> set rd_costs_baseline"
    by (simp add: length_rd_costs_baseline)
  then have b: "\<bar>rd_costs_baseline ! i\<bar> \<le> 24" by (rule rd_costs_baseline_abs)
  from True have r: "rd_costs P ! i = rd_cost_scaler P * rd_costs_baseline ! i"
    by (simp add: rd_costs_def length_rd_costs_baseline)
  have "\<bar>rd_cost_scaler P\<bar> * \<bar>rd_costs_baseline ! i\<bar> \<le> 10 ^ 6 * 24"
    by (rule mult_mono[OF k b]) simp_all
  then have "\<bar>rd_costs P ! i\<bar> \<le> 10 ^ 6 * 24" by (simp add: r abs_mult)
  with c have "\<bar>clindev_sga P + rd_costs P ! i\<bar> \<le> 10 ^ 6 + 10 ^ 6 * 24"
    by (intro order_trans[OF abs_triangle_ineq] add_mono)
  then show ?thesis by (simp add: nr_costs_nth_dev[OF True])
next
  case False
  with assms(2) show ?thesis by (simp add: nr_costs_nth_zero)
qed

lemma net_income_at_abs:
  assumes s: "shapes_30 P" and r: "sensible_ranges P" and i: "i < 30"
  shows "\<bar>net_income_at P i\<bar> \<le> 10 ^ 34"
proof -
  let ?p = "penetration_curve P ! i" and ?f = "n_flu P ! i"
  from r have mp: "\<bar>max_penetration P\<bar> \<le> 10 ^ 6" "\<bar>penetration_upon_patent_loss P\<bar> \<le> 10 ^ 6"
    and c: "\<bar>cost_per_unit P\<bar> \<le> 10 ^ 6" and k: "\<bar>cost_of_revenue P\<bar> \<le> 10 ^ 6"
    by (simp_all add: sensible_ranges_def)
  from s have n: "nat (n_years P) = 30" by (simp add: shapes_30_def)
  from i have "?p \<in> set (penetration_curve P)" by (simp add: shapes_30_lengths[OF s])
  then have p: "\<bar>?p\<bar> \<le> 10 ^ 6" by (rule penetration_curve_abs[OF mp])
  have f: "\<bar>?f\<bar> \<le> 10 ^ 15" using n_flu_abs[OF r _ i] i n by simp
  have pf: "\<bar>?p\<bar> * \<bar>?f\<bar> \<le> 10 ^ 6 * 10 ^ 15"
    by (rule mult_mono[OF p f]) simp_all
  have "\<bar>?p\<bar> * \<bar>?f\<bar> * \<bar>cost_per_unit P\<bar> \<le> 10 ^ 6 * 10 ^ 15 * 10 ^ 6"
    by (rule mult_mono[OF pf c]) simp_all
  then have y: "\<bar>?p * ?f * cost_per_unit P\<bar> \<le> 10 ^ 27" by (simp add: abs_mult)
  have "\<bar>?p * ?f * cost_per_unit P\<bar> * \<bar>cost_of_revenue P\<bar> \<le> 10 ^ 27 * 10 ^ 6"
    by (rule mult_mono[OF y k]) simp_all
  then have z: "\<bar>?p * ?f * cost_per_unit P * cost_of_revenue P\<bar> \<le> 10 ^ 33"
    by (simp add: abs_mult)
  note nr = nr_costs_abs[OF r i]
  have "\<bar>net_income_at P i\<bar> \<le> \<bar>?p * ?f * cost_per_unit P\<bar>
      + (\<bar>nr_costs P ! i\<bar> + \<bar>?p * ?f * cost_per_unit P * cost_of_revenue P\<bar>)"
    unfolding net_income_at_def by linarith
  with y z nr have "\<bar>net_income_at P i\<bar> \<le> 10 ^ 27 + (10 ^ 8 + 10 ^ 33)"
    by linarith
  also have "\<dots> \<le> 10 ^ 34" by simp
  finally show ?thesis .
qed

lemma discounted_abs:
  fixes x d :: real
  assumes "\<bar>x\<bar> \<le> 10 ^ 34" and "- (1 / 2) \<le> d" and "i < 30"
  shows "\<bar>x / (1 + d) ^ i\<bar> \<le> 10 ^ 44"
proof -
  from assms(2) have h: "1 / 2 \<le> 1 + d" by linarith
  then have "(1 / 2) ^ i \<le> (1 + d) ^ i" by (intro power_mono) simp_all
  moreover from assms(3) have "(1 / 2 :: real) ^ 30 \<le> (1 / 2) ^ i"
    by (intro power_decreasing) simp_all
  ultimately have q: "(1 / 2) ^ 30 \<le> (1 + d) ^ i" by linarith
  from h have pos: "0 < (1 + d) ^ i" by simp
  have "\<bar>x / (1 + d) ^ i\<bar> = \<bar>x\<bar> / (1 + d) ^ i"
    using pos by (simp add: abs_divide)
  also have "\<dots> \<le> 10 ^ 34 / (1 + d) ^ i"
    using assms(1) pos by (intro divide_right_mono) simp_all
  also have "\<dots> \<le> 10 ^ 34 / (1 / 2) ^ 30"
    using q pos by (intro divide_left_mono) simp_all
  also have "\<dots> \<le> 10 ^ 44" by (simp add: power_one_over)
  finally show ?thesis .
qed

lemma npv_sum_abs:
  assumes s: "shapes_30 P" and r: "sensible_ranges P"
  shows "\<bar>\<Sum>i\<leftarrow>[0..<30]. net_income_at P i / (1 + discount_rate P) ^ i\<bar> \<le> 10 ^ 46"
proof -
  let ?t = "\<lambda>i. net_income_at P i / (1 + discount_rate P) ^ i"
  from r have d: "- (1 / 2) \<le> discount_rate P" by (simp add: sensible_ranges_def)
  have "\<bar>sum_list (map ?t [0..<30])\<bar> \<le> sum_list (map abs (map ?t [0..<30]))"
    by (rule sum_list_abs)
  also have "\<dots> = (\<Sum>i\<leftarrow>[0..<30]. \<bar>?t i\<bar>)" by (simp add: comp_def)
  also have "\<dots> \<le> (\<Sum>i\<leftarrow>[0..<30]. 10 ^ 44)"
  proof (rule sum_list_mono)
    fix i :: nat assume "i \<in> set [0..<30]"
    then have i: "i < 30" by simp
    show "\<bar>?t i\<bar> \<le> 10 ^ 44"
      by (rule discounted_abs[OF net_income_at_abs[OF s r i] d i])
  qed
  also have "\<dots> \<le> 10 ^ 46" by (simp add: sum_list_replicate map_replicate_const)
  finally show ?thesis .
qed

text \<open>
  Claim C2, amended. For all parameter sets with
  \<open>n_years = lead_time_years + patent_exclusive_years + 5\<close> where that sum is 30 (lead
  time and exclusivity non-negative) and all parameters within \<open>sensible_ranges\<close>,
  \<open>get_npv\<close> raises no exception and returns a finite value, of absolute value at most
  \<open>10^46\<close>.
\<close>

theorem get_npv_finite_30:
  assumes "0 \<le> lead_time_years P" and "0 \<le> patent_exclusive_years P"
    and "lead_time_years P + patent_exclusive_years P + 5 = n_years P"
    and "n_years P = 30"
    and "sensible_ranges P"
  shows "\<exists>v. get_npv P = Inr (Finite v) \<and> \<bar>v\<bar> \<le> 10 ^ 46"
proof -
  from assms(1-4) have s: "shapes_30 P" by (simp add: shapes_30_def)
  from assms(5) have d: "discount_rate P \<noteq> - 1" by (rule sensible_rates(3))
  from get_npv_30[OF s d] npv_sum_abs[OF s assms(5)] show ?thesis by blast
qed

theorem get_npv_finite_30_witness:
  "0 \<le> lead_time_years default_params \<and> 0 \<le> patent_exclusive_years default_params \<and>
   lead_time_years default_params + patent_exclusive_years default_params + 5
     = n_years default_params \<and>
   n_years default_params = 30 \<and> sensible_ranges default_params \<and>
   (\<exists>v. get_npv default_params = Inr (Finite v) \<and> \<bar>v\<bar> \<le> 10 ^ 46)"
proof -
  have h: "0 \<le> lead_time_years default_params" "0 \<le> patent_exclusive_years default_params"
    "lead_time_years default_params + patent_exclusive_years default_params + 5
       = n_years default_params"
    "n_years default_params = 30"
    by (simp_all add: default_params_def)
  from get_npv_finite_30[OF h default_sensible] h default_sensible show ?thesis
    by blast
qed

end
